theory Spec2Isabelle
  imports Main "HOL-Library.Sublist"
begin

section \<open>Strings, exceptions and the library calls of \<^verbatim>\<open>vocabulary.py\<close>\<close>

text \<open>
  A Python \<^verbatim>\<open>str\<close> is a \<^typ>\<open>string\<close>: a list of characters, each a code point below
  256. In that range the decimal digits matched by \<^verbatim>\<open>\d\<close> are exactly \<^verbatim>\<open>0\<close> to \<^verbatim>\<open>9\<close>.
  Every \<^verbatim>\<open>raise\<close> of the module, and every exception of a library call it makes, is a
  value of \<open>py_error\<close>; a function that can raise returns \<open>py_error + 'a\<close>.
\<close>

datatype errno = EEXIST | ENOENT | EACCES | EISDIR | ENOTDIR

datatype py_error =
    ValueError string
  | IndexError
  | TypeError
  | StopIteration
  | CsvError
  | IOError string
  | OSError errno string

definition LF :: char where
  "LF = CHR 0x0A"

definition CR :: char where
  "CR = CHR 0x0D"

definition is_digit :: "char \<Rightarrow> bool" where
  "is_digit c = (c \<in> set ''0123456789'')"

text \<open>\<^verbatim>\<open>sep.join(parts)\<close>\<close>

fun join :: "string \<Rightarrow> string list \<Rightarrow> string" where
  "join sep [] = []"
| "join sep [p] = p"
| "join sep (p # q # ps) = p @ sep @ join sep (q # ps)"

section \<open>Date patterns\<close>

text \<open>
  The two compiled patterns are sequences of single-character atoms closed by \<^verbatim>\<open>$\<close>:
  \<^verbatim>\<open>RAW_DATE_PATTERN = re.compile(r'\d{8}$')\<close> and
  \<^verbatim>\<open>BQ_DATE_PATTERN = re.compile(r'\d{4}-\d{2}-\d{2}$')\<close>.
  \<open>match_atoms\<close> consumes the atoms from the start of the string, as \<^verbatim>\<open>pattern.match\<close>
  does, and returns what is left. Without the MULTILINE flag \<^verbatim>\<open>$\<close> matches at the end of
  the string and also just before a line feed that is the last character.
\<close>

datatype atom = Digit | Lit char

fun match_atoms :: "atom list \<Rightarrow> string \<Rightarrow> string option" where
  "match_atoms [] s = Some s"
| "match_atoms (a # as) [] = None"
| "match_atoms (Digit # as) (c # cs) = (if is_digit c then match_atoms as cs else None)"
| "match_atoms (Lit l # as) (c # cs) = (if c = l then match_atoms as cs else None)"

definition dollar :: "string \<Rightarrow> bool" where
  "dollar rest = (rest = [] \<or> rest = [LF])"

definition re_match :: "atom list \<Rightarrow> string \<Rightarrow> bool" where
  "re_match p s = (case match_atoms p s of None \<Rightarrow> False | Some rest \<Rightarrow> dollar rest)"

definition RAW_DATE_PATTERN :: "atom list" where
  "RAW_DATE_PATTERN = replicate 8 Digit"

definition BQ_DATE_PATTERN :: "atom list" where
  "BQ_DATE_PATTERN =
     replicate 4 Digit @ [Lit CHR ''-''] @ replicate 2 Digit @ [Lit CHR ''-''] @ replicate 2 Digit"

section \<open>\<^verbatim>\<open>format_date_str\<close>\<close>

text \<open>
  The slices \<^verbatim>\<open>date_str[0:4]\<close>, \<^verbatim>\<open>date_str[4:6]\<close> and \<^verbatim>\<open>date_str[6:8]\<close> are
  \<open>take\<close> after \<open>drop\<close>; a Python slice never raises.
\<close>

definition format_date_str :: "string \<Rightarrow> py_error + string" where
  "format_date_str date_str =
     (if re_match BQ_DATE_PATTERN date_str then Inr date_str
      else if re_match RAW_DATE_PATTERN date_str then
        Inr (join ''-'' [take 4 date_str, take 2 (drop 4 date_str), take 2 (drop 6 date_str)])
      else Inl (ValueError (''Cannot parse value '' @ date_str @ '' as date'')))"

text \<open>
  The two input shapes of the specification, in its own words: the canonical form
  \<^verbatim>\<open>YYYY-MM-DD\<close> and a string of exactly eight digits.
\<close>

definition canonical_form :: "string \<Rightarrow> bool" where
  "canonical_form s =
     (length s = 10 \<and> list_all is_digit (take 4 s) \<and> s ! 4 = CHR ''-'' \<and>
      list_all is_digit (take 2 (drop 5 s)) \<and> s ! 7 = CHR ''-'' \<and>
      list_all is_digit (drop 8 s))"

definition eight_digits :: "string \<Rightarrow> bool" where
  "eight_digits s = (length s = 8 \<and> list_all is_digit s)"

section \<open>The record transform \<^verbatim>\<open>_transform_csv\<close>\<close>

text \<open>
  \<^verbatim>\<open>csv.reader\<close> and \<^verbatim>\<open>csv.writer\<close> are the library's. The transform is modelled on
  the records the reader yields (\<open>in_fp\<close>: a list of rows, each a list of fields), on the
  rows handed to \<^verbatim>\<open>writerow\<close> (\<open>out_fp\<close>) and on the messages handed to
  \<^verbatim>\<open>err_fp.write\<close> (\<open>err_fp\<close>, the argument of that name or \<^verbatim>\<open>sys.stderr\<close> in its
  absence). Both output streams are appended to.

  A message is the text \<^verbatim>\<open>'Error %s transforming row:\n%s' % (str(e), row)\<close>. Its two
  interpolated values determine it; the model keeps them as they are: the exception \<open>e\<close>
  and the list object \<open>row\<close> in the state it has when the message is formatted.
\<close>

record err_message =
  failure :: py_error
  shown_row :: "string list"

text \<open>
  \<^verbatim>\<open>for index, item in enumerate(header): if item.endswith('_date'): date_indexes.append(index)\<close>
\<close>

definition date_indexes :: "string list \<Rightarrow> nat list" where
  "date_indexes header =
     map fst (filter (\<lambda>(index, item). suffix ''_date'' item) (enumerate 0 header))"

text \<open>
  The body of the \<^verbatim>\<open>try\<close>: \<^verbatim>\<open>for i in date_indexes: row[i] = format_date_str(row[i])\<close>.
  The assignment updates the row in place, so the function returns, next to the exception
  if one was raised, the row as the loop leaves it. Reading \<^verbatim>\<open>row[i]\<close> beyond the end
  raises \<^verbatim>\<open>IndexError\<close>.
\<close>

fun format_dates :: "nat list \<Rightarrow> string list \<Rightarrow> py_error option \<times> string list" where
  "format_dates [] row = (None, row)"
| "format_dates (i # idxs) row =
     (if length row \<le> i then (Some IndexError, row)
      else (case format_date_str (row ! i) of
              Inl e \<Rightarrow> (Some e, row)
            | Inr d \<Rightarrow> format_dates idxs (row[i := d])))"

text \<open>
  One turn of \<^verbatim>\<open>for row in csv_reader\<close>: the row is written, or the exception is caught
  (\<^verbatim>\<open>ValueError\<close> and \<^verbatim>\<open>IndexError\<close> are the only ones the body raises) and the message
  is written to the error stream.
\<close>

definition transform_row ::
  "nat list \<Rightarrow> string list \<Rightarrow> string list list \<times> err_message list \<Rightarrow>
   string list list \<times> err_message list" where
  "transform_row idxs row streams =
     (case streams of (out_fp, err_fp) \<Rightarrow>
        (case format_dates idxs row of
           (None, row') \<Rightarrow> (out_fp @ [row'], err_fp)
         | (Some e, row') \<Rightarrow> (out_fp, err_fp @ [\<lparr>failure = e, shown_row = row'\<rparr>])))"

definition transform_rows ::
  "nat list \<Rightarrow> string list list \<Rightarrow> string list list \<times> err_message list \<Rightarrow>
   string list list \<times> err_message list" where
  "transform_rows idxs rows streams = fold (transform_row idxs) rows streams"

text \<open>\<^verbatim>\<open>next(csv_reader)\<close> on a reader that yields nothing raises \<^verbatim>\<open>StopIteration\<close>.\<close>

definition transform_csv ::
  "string list list \<Rightarrow> string list list \<Rightarrow> err_message list \<Rightarrow>
   py_error + string list list \<times> err_message list" where
  "transform_csv in_fp out_fp err_fp =
     (case in_fp of
        [] \<Rightarrow> Inl StopIteration
      | header # rows \<Rightarrow>
          Inr (transform_rows (date_indexes header) rows (out_fp @ [header], err_fp)))"

text \<open>
  Notions used to state what happens to a record that cannot be transformed: the date
  field at index \<open>i\<close> fails; the exception it fails with; and the row with the date fields
  at the indexes in \<open>S\<close> replaced by their normalized form.
\<close>

definition fails_at :: "string list \<Rightarrow> nat \<Rightarrow> bool" where
  "fails_at row i = (length row \<le> i \<or> isl (format_date_str (row ! i)))"

definition failure_at :: "string list \<Rightarrow> nat \<Rightarrow> py_error" where
  "failure_at row i = (if length row \<le> i then IndexError else projl (format_date_str (row ! i)))"

definition normalized_on :: "nat set \<Rightarrow> string list \<Rightarrow> string list" where
  "normalized_on S row =
     map (\<lambda>j. if j \<in> S then projr (format_date_str (row ! j)) else row ! j) [0..<length row]"

section \<open>Paths and text files\<close>

text \<open>
  The functions of \<^verbatim>\<open>os.path\<close> the module calls, as \<^verbatim>\<open>posixpath\<close> defines them.
  \<^verbatim>\<open>str.rfind\<close> returns \<open>-1\<close> when the character does not occur.
\<close>

definition rfind :: "char \<Rightarrow> string \<Rightarrow> int" where
  "rfind c p = int (length p) - 1 - int (length (takeWhile (\<lambda>x. x \<noteq> c) (rev p)))"

definition basename :: "string \<Rightarrow> string" where
  "basename p = drop (nat (rfind CHR ''/'' p + 1)) p"

definition dirname :: "string \<Rightarrow> string" where
  "dirname p =
     (let head = take (nat (rfind CHR ''/'' p + 1)) p
      in if head \<noteq> [] \<and> \<not> list_all (\<lambda>c. c = CHR ''/'') head
         then rev (dropWhile (\<lambda>c. c = CHR ''/'') (rev head)) else head)"

definition path_join :: "string \<Rightarrow> string \<Rightarrow> string" where
  "path_join a b =
     (if b \<noteq> [] \<and> hd b = CHR ''/'' then b
      else if a = [] \<or> last a = CHR ''/'' then a @ b
      else a @ ''/'' @ b)"

text \<open>
  \<^verbatim>\<open>os.path.splitext\<close>: the extension starts at the last dot of the last component,
  unless only dots precede it there.
\<close>

definition splitext :: "string \<Rightarrow> string \<times> string" where
  "splitext p =
     (let sepIndex = rfind CHR ''/'' p; dotIndex = rfind CHR ''.'' p
      in if sepIndex < dotIndex \<and>
            list_ex (\<lambda>c. c \<noteq> CHR ''.'')
              (take (nat (dotIndex - (sepIndex + 1))) (drop (nat (sepIndex + 1)) p))
         then (take (nat dotIndex) p, drop (nat dotIndex) p)
         else (p, []))"

text \<open>\<^verbatim>\<open>str.lower\<close> on code points below 256: the ASCII and the Latin-1 capitals.\<close>

definition lower_char :: "char \<Rightarrow> char" where
  "lower_char c =
     (let n = (of_char c :: nat)
      in if (65 \<le> n \<and> n \<le> 90) \<or> (192 \<le> n \<and> n \<le> 222 \<and> n \<noteq> 215) then char_of (n + 32) else c)"

definition lower :: "string \<Rightarrow> string" where
  "lower s = map lower_char s"

text \<open>
  A file opened in text mode \<^verbatim>\<open>'r'\<close> is read with universal newlines: \<^verbatim>\<open>\r\n\<close> and a
  lone \<^verbatim>\<open>\r\<close> arrive as \<^verbatim>\<open>\n\<close>. Iterating over the file yields its lines, each with its
  line feed; only the last line can lack one.
\<close>

fun universal_newlines :: "string \<Rightarrow> string" where
  "universal_newlines [] = []"
| "universal_newlines [c] = [if c = CR then LF else c]"
| "universal_newlines (c # d # cs) =
     (if c = CR \<and> d = LF then LF # universal_newlines cs
      else if c = CR then LF # universal_newlines (d # cs)
      else c # universal_newlines (d # cs))"

fun readlines :: "string \<Rightarrow> string list" where
  "readlines [] = []"
| "readlines (c # cs) =
     (if c = LF then [LF] # readlines cs
      else (case readlines cs of [] \<Rightarrow> [[c]] | l # ls \<Rightarrow> (c # l) # ls))"

text \<open>A line that ends in its line feed, the only one in it.\<close>

definition whole_line :: "string \<Rightarrow> bool" where
  "whole_line l = (l \<noteq> [] \<and> last l = LF \<and> LF \<notin> set (butlast l))"

section \<open>The file system\<close>

text \<open>
  What the module's calls of \<^verbatim>\<open>os.listdir\<close>, \<^verbatim>\<open>os.makedirs\<close> and \<^verbatim>\<open>open\<close> can observe of
  a POSIX file system: the directories with the names \<^verbatim>\<open>listdir\<close> returns for them, the
  regular files with their content, and the paths at which the system refuses to create a
  directory, with the cause (permissions, a read-only medium, ...). Paths are compared as
  they are spelled; the directory of a bare file name is the one with the empty path.
\<close>

record filesys =
  dirs :: "string \<rightharpoonup> string list"
  files :: "string \<rightharpoonup> string"
  refused :: "string \<rightharpoonup> errno"

definition os_listdir :: "filesys \<Rightarrow> string \<Rightarrow> py_error + string list" where
  "os_listdir fs d =
     (case dirs fs d of
        Some names \<Rightarrow> Inr names
      | None \<Rightarrow> Inl (OSError (if files fs d = None then ENOENT else ENOTDIR) d))"

definition add_entry :: "filesys \<Rightarrow> string \<Rightarrow> filesys" where
  "add_entry fs p =
     (case dirs fs (dirname p) of
        None \<Rightarrow> fs
      | Some names \<Rightarrow>
          if basename p \<in> set names then fs
          else fs\<lparr>dirs := (dirs fs)(dirname p \<mapsto> names @ [basename p])\<rparr>)"

definition mkdir :: "string \<Rightarrow> filesys \<Rightarrow> filesys" where
  "mkdir d fs = (if dirs fs d = None then add_entry (fs\<lparr>dirs := (dirs fs)(d \<mapsto> [])\<rparr>) d else fs)"

definition ancestors :: "string \<Rightarrow> string list" where
  "ancestors p =
     filter (\<lambda>d. d \<noteq> []) (map (\<lambda>i. take i p) (filter (\<lambda>i. p ! i = CHR ''/'') [0..<length p]))"

text \<open>
  \<^verbatim>\<open>os.makedirs(p)\<close> creates \<open>p\<close> and the directories above it that are missing. It raises
  \<^verbatim>\<open>FileExistsError\<close>, an \<^verbatim>\<open>OSError\<close> with \<open>EEXIST\<close>, when \<open>p\<close> exists, and an \<^verbatim>\<open>OSError\<close>
  with the system's cause when the creation is refused.
\<close>

definition os_makedirs :: "filesys \<Rightarrow> string \<Rightarrow> py_error + filesys" where
  "os_makedirs fs p =
     (if dirs fs p = None \<and> files fs p = None then
        (case refused fs p of
           Some cause \<Rightarrow> Inl (OSError cause p)
         | None \<Rightarrow> Inr (fold mkdir (ancestors p @ [p]) fs))
      else Inl (OSError EEXIST p))"

text \<open>
  \<^verbatim>\<open>open(p, 'r')\<close> needs the file to exist. \<^verbatim>\<open>open(p, 'w')\<close> creates the file or empties
  it, and needs its directory to exist. What is written reaches the file when it is closed,
  which the \<^verbatim>\<open>with\<close> statement does on every way out of its block.
\<close>

definition open_r :: "filesys \<Rightarrow> string \<Rightarrow> py_error + unit" where
  "open_r fs p =
     (case files fs p of
        Some raw \<Rightarrow> Inr ()
      | None \<Rightarrow> Inl (OSError (if dirs fs p = None then ENOENT else EISDIR) p))"

definition read_text :: "filesys \<Rightarrow> string \<Rightarrow> string" where
  "read_text fs p = (case files fs p of Some raw \<Rightarrow> universal_newlines raw | None \<Rightarrow> [])"

definition write_text :: "filesys \<Rightarrow> string \<Rightarrow> string \<Rightarrow> filesys" where
  "write_text fs p text = fs\<lparr>files := (files fs)(p \<mapsto> text)\<rparr>"

definition open_w :: "filesys \<Rightarrow> string \<Rightarrow> py_error + filesys" where
  "open_w fs p =
     (if dirs fs p \<noteq> None then Inl (OSError EISDIR p)
      else if dirs fs (dirname p) = None then Inl (OSError ENOENT p)
      else Inr (write_text (add_entry fs p) p []))"

section \<open>What the module imports\<close>

text \<open>
  The constants of \<^verbatim>\<open>common\<close>, the two paths and the function \<^verbatim>\<open>hash_dir\<close> of
  \<^verbatim>\<open>resources\<close>, and the functions of the \<^verbatim>\<open>csv\<close> library are not part of the module.
  They are the fields of \<open>env\<close>, and everything below takes an \<open>env\<close>.

  \<^item> \<open>VOCABULARY_UPDATES\<close> is a dictionary from a vocabulary id to a list object, the
    template row of that vocabulary. The list objects live in the store of the running
    program; the dictionary holds their addresses, in the order of its keys.
  \<^item> \<open>hash_dir\<close> reads a directory of the file system and returns its fingerprint.
  \<^item> \<open>has_header\<close> is \<^verbatim>\<open>csv.Sniffer().has_header\<close>, which can raise \<^verbatim>\<open>csv.Error\<close>.
  \<^item> \<open>csv_reader\<close> gives the records \<^verbatim>\<open>csv.reader(fp, delimiter=...)\<close> yields for a text,
    \<open>csv_writerow\<close> the text \<^verbatim>\<open>csv.writer(fp, delimiter=..., lineterminator=...).writerow\<close>
    writes for a row, and \<open>message_text\<close> the text of an error message.
\<close>

record env =
  CONCEPT :: string
  VOCABULARY :: string
  DELIMITER :: string
  LINE_TERMINATOR :: string
  ERRORS :: string
  AOU_GEN_ID :: string
  AOU_CUSTOM_ID :: string
  VOCABULARY_UPDATES :: "(string \<times> nat) list"
  AOU_VOCAB_PATH :: string
  AOU_VOCAB_CONCEPT_CSV_PATH :: string
  hash_dir :: "filesys \<Rightarrow> string \<Rightarrow> string"
  has_header :: "string \<Rightarrow> py_error + bool"
  csv_reader :: "string \<Rightarrow> string \<Rightarrow> string list list"
  csv_writerow :: "string \<Rightarrow> string \<Rightarrow> string list \<Rightarrow> string"
  message_text :: "err_message \<Rightarrow> string"

text \<open>
  The state a call runs in and leaves behind: the file system, the store of list objects,
  the warnings issued with \<^verbatim>\<open>warnings.warn\<close> (the path and the vocabulary id that
  \<^verbatim>\<open>ERROR_APPENDING\<close> is formatted with) and the lines logged with \<^verbatim>\<open>logging.info\<close>.
  A function that can raise returns its result or its exception together with the state.
\<close>

record world =
  disk :: filesys
  heap :: "nat \<Rightarrow> string list"
  warnings :: "(string \<times> string) list"
  info_log :: "string list"

section \<open>The synthetic vocabulary rows\<close>

definition get_aou_vocab_version :: "env \<Rightarrow> world \<Rightarrow> string" where
  "get_aou_vocab_version E w = hash_dir E (disk w) (AOU_VOCAB_PATH E)"

text \<open>
  \<^verbatim>\<open>VOCABULARY_UPDATES.get(vocab_id)\<close> is \<^verbatim>\<open>None\<close> for an unknown id, and the assignment
  to \<^verbatim>\<open>None[-2]\<close> raises \<^verbatim>\<open>TypeError\<close>. Otherwise \<^verbatim>\<open>vocab_row\<close> is the list object of the
  dictionary itself, not a copy: \<^verbatim>\<open>vocab_row[-2] = aou_vocab_version\<close> writes to the store,
  and raises \<^verbatim>\<open>IndexError\<close> when the list has fewer than two elements.
\<close>

definition get_aou_vocabulary_row :: "env \<Rightarrow> string \<Rightarrow> world \<Rightarrow> (py_error + string) \<times> world" where
  "get_aou_vocabulary_row E vocab_id w =
     (let aou_vocab_version = get_aou_vocab_version E w
      in case map_of (VOCABULARY_UPDATES E) vocab_id of
           None \<Rightarrow> (Inl TypeError, w)
         | Some vocab_row \<Rightarrow>
             if length (heap w vocab_row) < 2 then (Inl IndexError, w)
             else
               (let w' = w\<lparr>heap := (heap w)
                          (vocab_row := (heap w vocab_row)
                             [length (heap w vocab_row) - 2 := aou_vocab_version])\<rparr>
                in (Inr (join (DELIMITER E) (heap w' vocab_row)), w')))"

text \<open>What \<^verbatim>\<open>VOCABULARY_UPDATES.get(vocab_id)\<close> shows to a reader of the dictionary.\<close>

definition template_row :: "env \<Rightarrow> world \<Rightarrow> string \<Rightarrow> string list option" where
  "template_row E w vocab_id = map_option (heap w) (map_of (VOCABULARY_UPDATES E) vocab_id)"

text \<open>
  \<^verbatim>\<open>next((vocab_id for vocab_id in VOCABULARY_UPDATES if vocab_id in s), None)\<close>: the first
  key, in the order of the dictionary, that occurs in \<open>s\<close> as a substring.
\<close>

definition vocab_id_match :: "env \<Rightarrow> string \<Rightarrow> string option" where
  "vocab_id_match E s = find (\<lambda>vocab_id. sublist vocab_id s) (map fst (VOCABULARY_UPDATES E))"

text \<open>
  The keys of \<open>VOCABULARY_UPDATES\<close> are the two reserved ids, and neither is the empty
  string.
\<close>

definition reserved_ids_ok :: "env \<Rightarrow> bool" where
  "reserved_ids_ok E =
     (set (map fst (VOCABULARY_UPDATES E)) = {AOU_GEN_ID E, AOU_CUSTOM_ID E} \<and>
      AOU_GEN_ID E \<noteq> [] \<and> AOU_CUSTOM_ID E \<noteq> [])"

text \<open>A row's raw text contains a reserved-vocabulary-id token.\<close>

definition has_reserved_id :: "env \<Rightarrow> string \<Rightarrow> bool" where
  "has_reserved_id E row = (sublist (AOU_GEN_ID E) row \<or> sublist (AOU_CUSTOM_ID E) row)"

section \<open>\<^verbatim>\<open>append_vocabulary\<close> and \<^verbatim>\<open>append_concepts\<close>\<close>

text \<open>
  One turn of \<^verbatim>\<open>for row in in_fp\<close>, the same in both functions. The state of the loop is
  the text written to \<^verbatim>\<open>out_fp\<close> so far and the warnings issued so far.
  \<^verbatim>\<open>if vocab_id_in_row:\<close> holds for a match that is not the empty string.
\<close>

definition copy_row :: "env \<Rightarrow> string \<Rightarrow> string \<Rightarrow> string \<times> (string \<times> string) list \<Rightarrow>
    string \<times> (string \<times> string) list" where
  "copy_row E in_path row st =
     (case st of (out_fp, warned) \<Rightarrow>
        (case vocab_id_match E row of
           None \<Rightarrow> (out_fp @ row, warned)
         | Some vocab_id_in_row \<Rightarrow>
             if vocab_id_in_row \<noteq> [] then (out_fp, warned @ [(in_path, vocab_id_in_row)])
             else (out_fp @ row, warned)))"

definition copy_rows :: "env \<Rightarrow> string \<Rightarrow> string list \<Rightarrow> string \<times> (string \<times> string) list \<Rightarrow>
    string \<times> (string \<times> string) list" where
  "copy_rows E in_path rows st = fold (copy_row E in_path) rows st"

text \<open>
  \<^verbatim>\<open>append_vocabulary\<close> renders the two rows first, then opens the output file, then the
  input file.
\<close>

definition append_vocabulary :: "env \<Rightarrow> string \<Rightarrow> string \<Rightarrow> world \<Rightarrow> (py_error + unit) \<times> world" where
  "append_vocabulary E in_path out_path w =
     (case get_aou_vocabulary_row E (AOU_GEN_ID E) w of
        (Inl e, w1) \<Rightarrow> (Inl e, w1)
      | (Inr aou_general_row, w1) \<Rightarrow>
     (case get_aou_vocabulary_row E (AOU_CUSTOM_ID E) w1 of
        (Inl e, w2) \<Rightarrow> (Inl e, w2)
      | (Inr aou_custom_row, w2) \<Rightarrow>
     (case open_w (disk w2) out_path of
        Inl e \<Rightarrow> (Inl e, w2)
      | Inr fs1 \<Rightarrow>
     (case open_r fs1 in_path of
        Inl e \<Rightarrow> (Inl e, w2\<lparr>disk := fs1\<rparr>)
      | Inr _ \<Rightarrow>
         (case copy_rows E in_path (readlines (read_text fs1 in_path)) ([], warnings w2) of
            (out_fp, warned) \<Rightarrow>
              (Inr (),
               w2\<lparr>disk := write_text fs1 out_path (out_fp @ (aou_general_row @ [LF]) @ aou_custom_row),
                  warnings := warned\<rparr>))))))"

text \<open>
  \<^verbatim>\<open>append_concepts\<close> opens the output file, copies the input, and then reads the custom
  concepts. \<^verbatim>\<open>readline\<close> returns the empty string at the end of the file, so
  \<^verbatim>\<open>five_lines\<close> is the text of the first five lines or of all there are. \<^verbatim>\<open>next\<close> on a
  file without lines raises \<^verbatim>\<open>StopIteration\<close>. When an exception leaves the outer
  \<^verbatim>\<open>with\<close> block, the output file holds what was written until then.
\<close>

definition append_concepts :: "env \<Rightarrow> string \<Rightarrow> string \<Rightarrow> world \<Rightarrow> (py_error + unit) \<times> world" where
  "append_concepts E in_path out_path w =
     (case open_w (disk w) out_path of
        Inl e \<Rightarrow> (Inl e, w)
      | Inr fs1 \<Rightarrow>
     (case open_r fs1 in_path of
        Inl e \<Rightarrow> (Inl e, w\<lparr>disk := fs1\<rparr>)
      | Inr _ \<Rightarrow>
     (case copy_rows E in_path (readlines (read_text fs1 in_path)) ([], warnings w) of
        (out_fp, warned) \<Rightarrow>
     (let w1 = w\<lparr>disk := write_text fs1 out_path out_fp, warnings := warned\<rparr>
      in case open_r fs1 (AOU_VOCAB_CONCEPT_CSV_PATH E) of
           Inl e \<Rightarrow> (Inl e, w1)
         | Inr _ \<Rightarrow>
        (let rows = readlines (read_text fs1 (AOU_VOCAB_CONCEPT_CSV_PATH E));
             five_lines = concat (take 5 rows)
         in case has_header E five_lines of
              Inl e \<Rightarrow> (Inl e, w1)
            | Inr skip \<Rightarrow>
                if skip \<and> rows = [] then (Inl StopIteration, w1)
                else
                  (Inr (),
                   w\<lparr>disk := write_text fs1 out_path
                             (out_fp @ concat (if skip then tl rows else rows)),
                     warnings := warned\<rparr>))))))"

section \<open>\<^verbatim>\<open>add_aou_vocabs\<close>\<close>

text \<open>One turn of the search \<^verbatim>\<open>for file_name in file_names\<close>.\<close>

definition find_step :: "env \<Rightarrow> string \<Rightarrow> string \<Rightarrow> string option \<times> string option \<Rightarrow>
    string option \<times> string option" where
  "find_step E in_dir file_name found =
     (case found of (concept_in_path, vocabulary_in_path) \<Rightarrow>
        (let table_name = fst (splitext (lower file_name));
             in_path = path_join in_dir file_name
         in if table_name = CONCEPT E then (Some in_path, vocabulary_in_path)
            else if table_name = VOCABULARY E then (concept_in_path, Some in_path)
            else (concept_in_path, vocabulary_in_path)))"

definition add_aou_vocabs :: "env \<Rightarrow> string \<Rightarrow> string \<Rightarrow> world \<Rightarrow> (py_error + unit) \<times> world" where
  "add_aou_vocabs E in_dir out_dir w =
     (case os_listdir (disk w) in_dir of
        Inl e \<Rightarrow> (Inl e, w)
      | Inr file_names \<Rightarrow>
     (case fold (find_step E in_dir) file_names (None, None) of
        (None, _) \<Rightarrow> (Inl (IOError (''CONCEPT.csv was not found in '' @ in_dir)), w)
      | (Some concept_in_path, None) \<Rightarrow>
          (Inl (IOError (''VOCABULARY.csv was not found in '' @ in_dir)), w)
      | (Some concept_in_path, Some vocabulary_in_path) \<Rightarrow>
     (case append_concepts E concept_in_path
             (path_join out_dir (basename concept_in_path)) w of
        (Inl e, w1) \<Rightarrow> (Inl e, w1)
      | (Inr _, w1) \<Rightarrow>
          append_vocabulary E vocabulary_in_path
            (path_join out_dir (basename vocabulary_in_path)) w1)))"

section \<open>\<^verbatim>\<open>transform_file\<close>\<close>

text \<open>
  \<^verbatim>\<open>except OSError\<close> catches every \<^verbatim>\<open>OSError\<close>, whatever its cause; \<^verbatim>\<open>IOError\<close> is another
  name of the same class. The handler logs one line and the function goes on. The three
  files are then opened in the order input, output, errors, and the input is read after
  that.
\<close>

definition is_OSError :: "py_error \<Rightarrow> bool" where
  "is_OSError e = (case e of OSError cause p \<Rightarrow> True | IOError m \<Rightarrow> True | _ \<Rightarrow> False)"

definition transform_file :: "env \<Rightarrow> string \<Rightarrow> string \<Rightarrow> world \<Rightarrow> (py_error + unit) \<times> world" where
  "transform_file E file_path out_dir w =
     (let file_name = basename file_path;
          out_file_name = path_join out_dir file_name;
          err_dir = path_join out_dir (ERRORS E);
          err_file_name = path_join err_dir file_name
      in case (case os_makedirs (disk w) err_dir of
                 Inr fs' \<Rightarrow> Inr (w\<lparr>disk := fs'\<rparr>)
               | Inl e \<Rightarrow>
                   if is_OSError e
                   then Inr (w\<lparr>info_log := info_log w @
                          [''Error directory:'' @ [CHR 0x09] @ err_dir @ [CHR 0x09] @ '' already exists'']\<rparr>)
                   else Inl e) of
           Inl e \<Rightarrow> (Inl e, w)
         | Inr w1 \<Rightarrow>
        (case open_r (disk w1) file_path of
           Inl e \<Rightarrow> (Inl e, w1)
         | Inr _ \<Rightarrow>
        (case open_w (disk w1) out_file_name of
           Inl e \<Rightarrow> (Inl e, w1)
         | Inr fs2 \<Rightarrow>
        (case open_w fs2 err_file_name of
           Inl e \<Rightarrow> (Inl e, w1\<lparr>disk := fs2\<rparr>)
         | Inr fs3 \<Rightarrow>
        (case transform_csv (csv_reader E (DELIMITER E) (read_text fs3 file_path)) [] [] of
           Inl e \<Rightarrow> (Inl e, w1\<lparr>disk := fs3\<rparr>)
         | Inr (out_fp, err_fp) \<Rightarrow>
             (Inr (),
              w1\<lparr>disk := write_text
                     (write_text fs3 out_file_name
                        (concat (map (csv_writerow E (DELIMITER E) (LINE_TERMINATOR E)) out_fp)))
                     err_file_name (concat (map (message_text E) err_fp))\<rparr>))))))"

section \<open>An example configuration\<close>

text \<open>
  A configuration and a state to evaluate the functions on: the two resource names and
  the name of the error directory as the specification gives them, the delimiter of its
  example, two reserved ids with five-field templates, a resource directory whose
  fingerprint is taken from the names of its entries, and an input directory with a
  concept and a vocabulary file.
\<close>

definition example_hash_dir :: "filesys \<Rightarrow> string \<Rightarrow> string" where
  "example_hash_dir fs d = (case dirs fs d of None \<Rightarrow> ''0'' | Some names \<Rightarrow> ''v'' @ concat names)"

definition example_env :: env where
  "example_env =
     \<lparr>CONCEPT = ''concept'', VOCABULARY = ''vocabulary'', DELIMITER = ''|'',
      LINE_TERMINATOR = [LF], ERRORS = ''errors'',
      AOU_GEN_ID = ''AoU_General'', AOU_CUSTOM_ID = ''AoU_Custom'',
      VOCABULARY_UPDATES = [(''AoU_General'', 0), (''AoU_Custom'', 1)],
      AOU_VOCAB_PATH = ''aou'', AOU_VOCAB_CONCEPT_CSV_PATH = ''aou/c.csv'',
      hash_dir = example_hash_dir,
      has_header = (\<lambda>sample. Inr True),
      csv_reader = (\<lambda>delimiter text. map (\<lambda>line. [takeWhile (\<lambda>c. c \<noteq> LF) line]) (readlines text)),
      csv_writerow = (\<lambda>delimiter lineterminator row. join delimiter row @ lineterminator),
      message_text = (\<lambda>m. [])\<rparr>"

definition example_heap :: "nat \<Rightarrow> string list" where
  "example_heap =
     (\<lambda>a. [])(0 := [''AoU_General'', ''General'', ''g.org'', ''x'', ''2000''],
               1 := [''AoU_Custom'', ''Custom'', ''c.org'', ''x'', ''2100''])"

definition example_fs :: filesys where
  "example_fs =
     \<lparr>dirs = [[] \<mapsto> [''in'', ''out'', ''aou''],
              ''in'' \<mapsto> [''CONCEPT.csv'', ''Vocabulary.CSV''],
              ''out'' \<mapsto> [],
              ''aou'' \<mapsto> [''c.csv'']],
      files = [''in/Vocabulary.CSV'' \<mapsto> ''id|name|ref|version|cid'' @ [LF] @ ''SNOMED|S|s.org|v1|1'' @ [LF],
               ''in/CONCEPT.csv'' \<mapsto> ''cid|vid'' @ [LF] @ ''7|SNOMED'' @ [LF] @ ''8|AoU_General'' @ [LF],
               ''aou/c.csv'' \<mapsto> ''cid|vid'' @ [LF] @ ''9|AoU_General'' @ [LF]],
      refused = Map.empty\<rparr>"

definition example_world :: world where
  "example_world = \<lparr>disk = example_fs, heap = example_heap, warnings = [], info_log = []\<rparr>"

text \<open>
  The example state with an output file left by an earlier run and an output directory in
  which the system refuses, for lack of permission, to create the subdirectory for the
  error files.
\<close>

definition locked_world :: world where
  "locked_world =
     example_world\<lparr>disk := example_fs
       \<lparr>files := (files example_fs)(''out/CONCEPT.csv'' \<mapsto> ''stale''),
        refused := [''out/errors'' \<mapsto> EACCES]\<rparr>\<rparr>"

text \<open>
  The example state with a vocabulary file whose last record has no line feed after it.
\<close>

definition unterminated_world :: world where
  "unterminated_world =
     example_world\<lparr>disk := example_fs
       \<lparr>files := (files example_fs)
          (''in/Vocabulary.CSV'' \<mapsto> ''id|name|ref|version|cid'' @ [LF] @ ''SNOMED|S|s.org|v1|1'')\<rparr>\<rparr>"

section \<open>Properties of the date normalizer\<close>

lemma match_atoms_append:
  "match_atoms (p @ q) s = (case match_atoms p s of None \<Rightarrow> None | Some r \<Rightarrow> match_atoms q r)"
proof (induction p s rule: match_atoms.induct)
  case (2 a as)
  then show ?case by (cases q) simp_all
qed simp_all

lemma match_digits:
  "match_atoms (replicate n Digit) s =
     (if n \<le> length s \<and> list_all is_digit (take n s) then Some (drop n s) else None)"
proof (induction n arbitrary: s)
  case 0
  show ?case by simp
next
  case (Suc n)
  show ?case by (cases s) (simp_all add: Suc.IH)
qed

lemma match_lit:
  "match_atoms [Lit l] s = (if s \<noteq> [] \<and> hd s = l then Some (tl s) else None)"
  by (cases s) auto

lemma match_raw:
  "re_match RAW_DATE_PATTERN s =
     (8 \<le> length s \<and> list_all is_digit (take 8 s) \<and> dollar (drop 8 s))"
  by (auto simp: re_match_def RAW_DATE_PATTERN_def match_digits)

lemma tl_drop_Suc: "tl (drop n s) = drop (Suc n) s"
  by (simp add: drop_Suc tl_drop)

lemma match_lit_cons:
  "match_atoms (Lit l # p) s = (if s \<noteq> [] \<and> hd s = l then match_atoms p (tl s) else None)"
  by (cases s) auto

lemma match_digits_app:
  "match_atoms (replicate n Digit @ p) s =
     (if n \<le> length s \<and> list_all is_digit (take n s) then match_atoms p (drop n s) else None)"
  by (simp add: match_atoms_append match_digits)

lemma match_bq_atoms:
  "match_atoms BQ_DATE_PATTERN s =
     (if 10 \<le> length s \<and> canonical_form (take 10 s) then Some (drop 10 s) else None)"
  unfolding BQ_DATE_PATTERN_def canonical_form_def
  by (auto simp: match_digits_app match_digits match_lit_cons hd_drop_conv_nth tl_drop_Suc drop_take min_def)

lemma match_bq:
  "re_match BQ_DATE_PATTERN s =
     (10 \<le> length s \<and> canonical_form (take 10 s) \<and> dollar (drop 10 s))"
  by (auto simp: re_match_def match_bq_atoms)

lemma dollar_split:
  "(n \<le> length s \<and> P (take n s) \<and> dollar (drop n s)) =
     (\<exists>d. length d = n \<and> P d \<and> (s = d \<or> s = d @ [LF]))"
proof
  assume a: "n \<le> length s \<and> P (take n s) \<and> dollar (drop n s)"
  then have "s = take n s \<or> s = take n s @ [LF]"
    unfolding dollar_def by (metis append_take_drop_id append_Nil2)
  with a show "\<exists>d. length d = n \<and> P d \<and> (s = d \<or> s = d @ [LF])"
    by (intro exI [of _ "take n s"]) simp
next
  assume "\<exists>d. length d = n \<and> P d \<and> (s = d \<or> s = d @ [LF])"
  then show "n \<le> length s \<and> P (take n s) \<and> dollar (drop n s)"
    by (auto simp: dollar_def)
qed

lemma re_match_raw_iff:
  "re_match RAW_DATE_PATTERN s = (\<exists>d. eight_digits d \<and> (s = d \<or> s = d @ [LF]))"
  unfolding match_raw eight_digits_def
  using dollar_split [of 8 s "list_all is_digit"] by (simp add: conj_commute conj_left_commute)

lemma re_match_bq_iff:
  "re_match BQ_DATE_PATTERN s = (\<exists>d. canonical_form d \<and> (s = d \<or> s = d @ [LF]))"
proof -
  have "re_match BQ_DATE_PATTERN s =
          (\<exists>d. length d = 10 \<and> canonical_form d \<and> (s = d \<or> s = d @ [LF]))"
    unfolding match_bq by (rule dollar_split)
  also have "\<dots> = (\<exists>d. canonical_form d \<and> (s = d \<or> s = d @ [LF]))"
    by (auto simp: canonical_form_def)
  finally show ?thesis .
qed

text \<open>
  Claim C5. For every string \<open>D\<close> of exactly eight digits, \<^verbatim>\<open>format_date_str(D)\<close> returns
  \<^verbatim>\<open>D[0:4] + "-" + D[4:6] + "-" + D[6:8]\<close>.
\<close>

theorem format_date_str_eight_digits:
  assumes "eight_digits D"
  shows "format_date_str D = Inr (take 4 D @ ''-'' @ take 2 (drop 4 D) @ ''-'' @ take 2 (drop 6 D))"
proof -
  from assms have len: "length D = 8" and dig: "list_all is_digit D"
    by (simp_all add: eight_digits_def)
  from len have "\<not> re_match BQ_DATE_PATTERN D"
    by (simp add: match_bq)
  moreover from len dig have "re_match RAW_DATE_PATTERN D"
    by (simp add: match_raw dollar_def)
  ultimately show ?thesis
    by (simp add: format_date_str_def)
qed

theorem format_date_str_eight_digits_witness:
  "eight_digits ''20200101'' \<and> format_date_str ''20200101'' = Inr ''2020-01-01''"
  using format_date_str_eight_digits [of "''20200101''"]
  by (simp add: eight_digits_def is_digit_def)




text \<open>The inputs left out of the amended claim are exactly those the function accepts.\<close>

lemma format_date_str_accepts:
  assumes "\<exists>d. (canonical_form d \<or> eight_digits d) \<and> (s = d \<or> s = d @ [LF])"
  shows "\<not> isl (format_date_str s)"
proof -
  from assms have "re_match BQ_DATE_PATTERN s \<or> re_match RAW_DATE_PATTERN s"
    unfolding re_match_bq_iff re_match_raw_iff by blast
  then show ?thesis
    by (auto simp: format_date_str_def)
qed

section \<open>Properties of the record transform\<close>

lemma transform_rows_counts:
  "\<exists>written msgs. transform_rows idxs rows (out_fp, err_fp) = (out_fp @ written, err_fp @ msgs) \<and>
     length written + length msgs = length rows"
proof (induction rows arbitrary: out_fp err_fp)
  case Nil
  show ?case by (simp add: transform_rows_def)
next
  case (Cons row rows)
  obtain e row' where fd: "format_dates idxs row = (e, row')"
    by (cases "format_dates idxs row")
  show ?case
  proof (cases e)
    case None
    from Cons.IH [of "out_fp @ [row']" err_fp] obtain w m where
      "transform_rows idxs rows (out_fp @ [row'], err_fp) = ((out_fp @ [row']) @ w, err_fp @ m)"
      "length w + length m = length rows" by blast
    with fd None show ?thesis
      by (intro exI [of _ "row' # w"] exI [of _ m]) (simp add: transform_rows_def transform_row_def)
  next
    case (Some x)
    from Cons.IH [of out_fp "err_fp @ [\<lparr>failure = x, shown_row = row'\<rparr>]"] obtain w m where
      "transform_rows idxs rows (out_fp, err_fp @ [\<lparr>failure = x, shown_row = row'\<rparr>]) =
         (out_fp @ w, (err_fp @ [\<lparr>failure = x, shown_row = row'\<rparr>]) @ m)"
      "length w + length m = length rows" by blast
    with fd Some show ?thesis
      by (intro exI [of _ w] exI [of _ "\<lparr>failure = x, shown_row = row'\<rparr> # m"])
         (simp add: transform_rows_def transform_row_def)
  qed
qed

text \<open>
  Claim C1. For every input whose first record is the header, the transform returns, and
  the number of data records it writes to the output stream plus the number of messages
  it writes to the error stream is the number of input data records, the header excluded.
\<close>

theorem transform_csv_conservation:
  "\<exists>written msgs.
     transform_csv (header # rows) out_fp err_fp = Inr (out_fp @ header # written, err_fp @ msgs) \<and>
     length written + length msgs = length rows"
proof -
  from transform_rows_counts [of "date_indexes header" rows "out_fp @ [header]" err_fp]
  obtain w m where
    "transform_rows (date_indexes header) rows (out_fp @ [header], err_fp) =
       ((out_fp @ [header]) @ w, err_fp @ m)"
    "length w + length m = length rows" by blast
  then show ?thesis
    by (intro exI [of _ w] exI [of _ m]) (simp add: transform_csv_def)
qed

theorem transform_csv_conservation_witness:
  "\<exists>written msgs.
     transform_csv ([''id'', ''start_date''] # [[''1'', ''20200101''], [''2'', ''bad''], [''3'']]) [] [] =
       Inr ([''id'', ''start_date''] # written, msgs) \<and>
     length written + length msgs = 3"
  using transform_csv_conservation
    [of "[''id'', ''start_date'']" "[[''1'', ''20200101''], [''2'', ''bad''], [''3'']]" "[]" "[]"]
  by (simp add: eval_nat_numeral)

lemma transform_csv_example:
  "transform_csv ([''id'', ''start_date''] # [[''1'', ''20200101''], [''2'', ''bad''], [''3'']]) [] [] =
     Inr ([[''id'', ''start_date''], [''1'', ''2020-01-01'']],
          [\<lparr>failure = ValueError ''Cannot parse value bad as date'', shown_row = [''2'', ''bad'']\<rparr>,
           \<lparr>failure = IndexError, shown_row = [''3'']\<rparr>])"
  by code_simp

lemma distinct_date_indexes: "distinct (date_indexes header)"
  unfolding date_indexes_def
  by (rule distinct_map_filter) (simp add: enumerate_eq_zip)

lemma normalized_on_empty: "normalized_on {} row = row"
  by (simp add: normalized_on_def map_nth)

lemma normalized_on_update:
  assumes "i < length row" "i \<notin> S" "format_date_str (row ! i) = Inr d"
  shows "normalized_on S (row[i := d]) = normalized_on (insert i S) row"
  using assms by (auto simp: normalized_on_def nth_list_update)

lemma fails_at_update:
  "j \<noteq> i \<Longrightarrow> fails_at (row[i := d]) j = fails_at row j"
  by (simp add: fails_at_def)

lemma format_dates_ok:
  assumes "distinct idxs" "\<forall>i \<in> set idxs. \<not> fails_at row i"
  shows "format_dates idxs row = (None, normalized_on (set idxs) row)"
  using assms
proof (induction idxs arbitrary: row)
  case Nil
  show ?case by (simp add: normalized_on_empty)
next
  case (Cons i idxs)
  from Cons.prems obtain d where d: "i < length row" "format_date_str (row ! i) = Inr d"
    by (cases "format_date_str (row ! i)") (auto simp: fails_at_def)
  have "\<not> fails_at (row[i := d]) j" if "j \<in> set idxs" for j
  proof -
    from that Cons.prems have "j \<noteq> i" "\<not> fails_at row j" by auto
    then show ?thesis by (simp add: fails_at_update)
  qed
  then have "\<forall>j \<in> set idxs. \<not> fails_at (row[i := d]) j" by blast
  with Cons have "format_dates idxs (row[i := d]) = (None, normalized_on (set idxs) (row[i := d]))"
    by simp
  with d Cons.prems show ?case
    by (simp add: normalized_on_update)
qed

lemma format_dates_bad:
  assumes "distinct (pre @ i # post)" "\<forall>j \<in> set pre. \<not> fails_at row j" "fails_at row i"
  shows "format_dates (pre @ i # post) row = (Some (failure_at row i), normalized_on (set pre) row)"
  using assms
proof (induction pre arbitrary: row)
  case Nil
  then show ?case
    by (cases "format_date_str (row ! i)") (auto simp: fails_at_def failure_at_def normalized_on_empty)
next
  case (Cons k pre)
  from Cons.prems obtain d where d: "k < length row" "format_date_str (row ! k) = Inr d"
    by (cases "format_date_str (row ! k)") (auto simp: fails_at_def)
  from Cons.prems have ne: "k \<noteq> i" "k \<notin> set pre" by auto
  have "\<not> fails_at (row[k := d]) j" if "j \<in> set pre" for j
  proof -
    from that Cons.prems have "j \<noteq> k" "\<not> fails_at row j" by auto
    then show ?thesis by (simp add: fails_at_update)
  qed
  then have a: "\<forall>j \<in> set pre. \<not> fails_at (row[k := d]) j" by blast
  from Cons.prems ne have b: "fails_at (row[k := d]) i"
    by (simp add: fails_at_update)
  from ne have c: "failure_at (row[k := d]) i = failure_at row i"
    by (simp add: failure_at_def)
  from Cons.prems have "distinct (pre @ i # post)" by simp
  from Cons.IH [OF this a b] d ne c show ?case
    by (simp add: normalized_on_update)
qed

lemma transform_rows_append:
  "transform_rows idxs (xs @ ys) st = transform_rows idxs ys (transform_rows idxs xs st)"
  by (simp add: transform_rows_def)

lemma transform_rows_bad:
  assumes "format_dates idxs row = (Some e, row')"
  shows "transform_rows idxs (row # rows) (out_fp, err_fp) =
           transform_rows idxs rows (out_fp, err_fp @ [\<lparr>failure = e, shown_row = row'\<rparr>])"
  using assms by (simp add: transform_rows_def transform_row_def)

text \<open>
  Claim C2 as stated fails where it says that the message shows the record as read. The
  row is updated in place, field by field, so when the second date field fails the first
  is already normalized in the row the message is formatted from.
\<close>

theorem transform_csv_partly_normalized_row_shown:
  "transform_csv [[''start_date'', ''end_date''], [''20200101'', ''bad'']] [] [] =
     Inr ([[''start_date'', ''end_date'']],
          [\<lparr>failure = ValueError ''Cannot parse value bad as date'',
            shown_row = [''2020-01-01'', ''bad'']\<rparr>]) \<and>
   [''2020-01-01'', ''bad''] \<noteq> [''20200101'', ''bad'']"
  by code_simp

text \<open>
  Claim C2, amended. For every data record in which some date field fails to normalize or
  some date-field index is beyond the end of the record, the record is not written to the
  output stream; a message is appended to the error stream that holds the first failure
  and the record as it stands at that moment (the date fields before the failing one in
  normalized form, every other field as read), and the records after it are processed from
  there.
\<close>

theorem transform_csv_diverts_bad_record:
  assumes "\<exists>i \<in> set (date_indexes header). fails_at row i"
  shows "\<exists>pre i post out1 err1.
     date_indexes header = pre @ i # post \<and> (\<forall>j \<in> set pre. \<not> fails_at row j) \<and> fails_at row i \<and>
     transform_csv (header # before) out_fp err_fp = Inr (out1, err1) \<and>
     transform_csv (header # before @ row # after) out_fp err_fp =
       Inr (transform_rows (date_indexes header) after
         (out1, err1 @ [\<lparr>failure = failure_at row i, shown_row = normalized_on (set pre) row\<rparr>]))"
proof -
  from split_list_first_prop [OF assms] obtain pre i post where
    s: "date_indexes header = pre @ i # post" "fails_at row i" "\<forall>j \<in> set pre. \<not> fails_at row j"
    by blast
  from distinct_date_indexes [of header] s have "distinct (pre @ i # post)" by simp
  from format_dates_bad [OF this s(3) s(2)] s(1)
  have fd: "format_dates (date_indexes header) row =
              (Some (failure_at row i), normalized_on (set pre) row)" by simp
  obtain out1 err1 where
    st: "transform_rows (date_indexes header) before (out_fp @ [header], err_fp) = (out1, err1)"
    by (cases "transform_rows (date_indexes header) before (out_fp @ [header], err_fp)")
  from st have a: "transform_csv (header # before) out_fp err_fp = Inr (out1, err1)"
    by (simp add: transform_csv_def)
  from st transform_rows_bad [OF fd]
  have b: "transform_csv (header # before @ row # after) out_fp err_fp =
       Inr (transform_rows (date_indexes header) after
         (out1, err1 @ [\<lparr>failure = failure_at row i, shown_row = normalized_on (set pre) row\<rparr>]))"
    by (simp add: transform_csv_def transform_rows_append)
  from s a b show ?thesis by blast
qed

theorem transform_csv_diverts_bad_record_witness:
  "(\<exists>i \<in> set (date_indexes [''start_date'', ''end_date'']). fails_at [''20200101'', ''bad''] i) \<and>
   (\<exists>pre i post out1 err1.
     date_indexes [''start_date'', ''end_date''] = pre @ i # post \<and>
     (\<forall>j \<in> set pre. \<not> fails_at [''20200101'', ''bad''] j) \<and> fails_at [''20200101'', ''bad''] i \<and>
     transform_csv ([''start_date'', ''end_date''] # [[''2020-01-01'', ''20200102'']]) [] [] = Inr (out1, err1) \<and>
     transform_csv ([''start_date'', ''end_date''] # [[''2020-01-01'', ''20200102'']] @
         [''20200101'', ''bad''] # [[''20200103'', ''20200104'']]) [] [] =
       Inr (transform_rows (date_indexes [''start_date'', ''end_date'']) [[''20200103'', ''20200104'']]
         (out1, err1 @ [\<lparr>failure = failure_at [''20200101'', ''bad''] i,
                         shown_row = normalized_on (set pre) [''20200101'', ''bad'']\<rparr>])))"
proof -
  have h: "\<exists>i \<in> set (date_indexes [''start_date'', ''end_date'']). fails_at [''20200101'', ''bad''] i"
    by code_simp
  from transform_csv_diverts_bad_record [OF h] h show ?thesis by blast
qed

section \<open>Properties of the synthetic vocabulary rows\<close>

lemma get_aou_vocabulary_row_run:
  assumes "map_of (VOCABULARY_UPDATES E) vocab_id = Some r" and "heap w r = row" and "2 \<le> length row"
  shows "get_aou_vocabulary_row E vocab_id w =
           (Inr (join (DELIMITER E) (row[length row - 2 := get_aou_vocab_version E w])),
            w\<lparr>heap := (heap w)(r := row[length row - 2 := get_aou_vocab_version E w])\<rparr>)"
  using assms by (simp add: get_aou_vocabulary_row_def Let_def)

text \<open>
  Claim C10. \<^verbatim>\<open>get_aou_vocabulary_row\<close> is not pure with respect to the template mapping:
  for every vocabulary id of \<open>VOCABULARY_UPDATES\<close> (with a template that has an index
  \<open>-2\<close>) the call overwrites the version field of the template stored there. A reader of
  the mapping sees the overwritten row after the call; it differs from what was there
  before whenever the stored version was another one; the other templates and the file
  system are left as they were.
\<close>

theorem get_aou_vocabulary_row_mutates_template:
  assumes "template_row E w vocab_id = Some row" and "2 \<le> length row"
  shows "\<exists>w'. get_aou_vocabulary_row E vocab_id w =
            (Inr (join (DELIMITER E) (row[length row - 2 := get_aou_vocab_version E w])), w') \<and>
          template_row E w' vocab_id = Some (row[length row - 2 := get_aou_vocab_version E w]) \<and>
          (row ! (length row - 2) \<noteq> get_aou_vocab_version E w \<longrightarrow>
             template_row E w' vocab_id \<noteq> template_row E w vocab_id) \<and>
          (\<forall>other. map_of (VOCABULARY_UPDATES E) other \<noteq> map_of (VOCABULARY_UPDATES E) vocab_id \<longrightarrow>
             template_row E w' other = template_row E w other) \<and>
          disk w' = disk w"
proof -
  from assms(1) obtain r where r: "map_of (VOCABULARY_UPDATES E) vocab_id = Some r" "heap w r = row"
    by (auto simp: template_row_def)
  let ?v = "get_aou_vocab_version E w"
  let ?w = "w\<lparr>heap := (heap w)(r := row[length row - 2 := ?v])\<rparr>"
  from r assms(2) have run: "get_aou_vocabulary_row E vocab_id w =
      (Inr (join (DELIMITER E) (row[length row - 2 := ?v])), ?w)"
    by (simp add: get_aou_vocabulary_row_def Let_def)
  from r have seen: "template_row E ?w vocab_id = Some (row[length row - 2 := ?v])"
    by (simp add: template_row_def)
  from assms have changed: "row ! (length row - 2) \<noteq> ?v \<longrightarrow>
      template_row E ?w vocab_id \<noteq> template_row E w vocab_id"
    unfolding seen by (auto simp: list_update_same_conv)
  have others: "\<forall>other. map_of (VOCABULARY_UPDATES E) other \<noteq> map_of (VOCABULARY_UPDATES E) vocab_id \<longrightarrow>
      template_row E ?w other = template_row E w other"
    using r by (auto simp: template_row_def map_option_case split: option.splits)
  from run seen changed others show ?thesis
    by (intro exI [of _ ?w]) simp
qed

theorem get_aou_vocabulary_row_mutates_template_witness:
  "template_row example_env example_world ''AoU_General'' =
     Some [''AoU_General'', ''General'', ''g.org'', ''x'', ''2000''] \<and>
   (\<exists>w'. get_aou_vocabulary_row example_env ''AoU_General'' example_world =
            (Inr ''AoU_General|General|g.org|vc.csv|2000'', w') \<and>
          template_row example_env w' ''AoU_General'' =
            Some [''AoU_General'', ''General'', ''g.org'', ''vc.csv'', ''2000''] \<and>
          template_row example_env w' ''AoU_General'' \<noteq>
            template_row example_env example_world ''AoU_General'')"
proof -
  have h: "template_row example_env example_world ''AoU_General'' =
     Some [''AoU_General'', ''General'', ''g.org'', ''x'', ''2000'']"
    by code_simp
  have v: "get_aou_vocab_version example_env example_world = ''vc.csv''"
    by code_simp
  have d: "DELIMITER example_env = ''|''"
    by (simp add: example_env_def)
  have len: "2 \<le> length [''AoU_General'', ''General'', ''g.org'', ''x'', ''2000'']"
    by simp
  from get_aou_vocabulary_row_mutates_template [OF h len] h show ?thesis
    unfolding v d by (fastforce simp: eval_nat_numeral)
qed

section \<open>Properties of text files\<close>

lemma LF_neq_CR: "LF \<noteq> CR"
  by (simp add: LF_def CR_def)

lemma universal_newlines_no_CR: "CR \<notin> set (universal_newlines s)"
  using LF_neq_CR by (induction s rule: universal_newlines.induct) auto

lemma universal_newlines_id: "CR \<notin> set s \<Longrightarrow> universal_newlines s = s"
  by (induction s rule: universal_newlines.induct) auto

lemma readlines_Nil: "(readlines s = []) = (s = [])"
  by (cases s) (auto split: list.splits)

lemma concat_readlines: "concat (readlines s) = s"
proof (induction s)
  case Nil
  show ?case by simp
next
  case (Cons c cs)
  then show ?case
    by (cases "readlines cs") (auto simp: readlines_Nil)
qed

lemma readlines_line:
  "LF \<notin> set b \<Longrightarrow> readlines (b @ LF # s) = (b @ [LF]) # readlines s"
  by (induction b) auto

lemma readlines_last:
  "c \<noteq> [] \<Longrightarrow> LF \<notin> set c \<Longrightarrow> readlines c = [c]"
proof (induction c)
  case Nil
  then show ?case by simp
next
  case (Cons x c)
  then show ?case by (cases c) auto
qed

lemma whole_line_iff: "whole_line l = (\<exists>b. l = b @ [LF] \<and> LF \<notin> set b)"
proof
  assume "whole_line l"
  then have "l = butlast l @ [LF]" and "LF \<notin> set (butlast l)"
    unfolding whole_line_def using append_butlast_last_id [of l] by auto
  then show "\<exists>b. l = b @ [LF] \<and> LF \<notin> set b"
    by blast
next
  assume "\<exists>b. l = b @ [LF] \<and> LF \<notin> set b"
  then show "whole_line l"
    unfolding whole_line_def by auto
qed

lemma readlines_terminated:
  assumes "s = [] \<or> last s = LF"
  shows "\<forall>l \<in> set (readlines s). whole_line l"
  using assms
proof (induction s)
  case Nil
  show ?case by simp
next
  case (Cons c cs)
  show ?case
  proof (cases "c = LF")
    case True
    have "whole_line [LF]"
      unfolding whole_line_iff by (intro exI [of _ "[]"]) simp
    moreover from Cons True have "\<forall>l \<in> set (readlines cs). whole_line l"
      by (cases cs) auto
    ultimately show ?thesis using True by simp
  next
    case False
    with Cons.prems have cs: "cs \<noteq> []" "last cs = LF" by (auto split: if_splits)
    then obtain l ls where r: "readlines cs = l # ls"
      by (cases "readlines cs") (auto simp: readlines_Nil)
    from Cons.IH cs r have "whole_line l" and rest: "\<forall>l \<in> set ls. whole_line l" by auto
    then obtain b where "l = b @ [LF]" "LF \<notin> set b"
      unfolding whole_line_iff by blast
    with False have "whole_line (c # l)"
      unfolding whole_line_iff by (intro exI [of _ "c # b"]) simp
    with rest r False show ?thesis by simp
  qed
qed

lemma readlines_concat_lines:
  assumes "\<forall>l \<in> set ls. whole_line l"
  shows "readlines (concat ls @ s) = ls @ readlines s"
  using assms
proof (induction ls)
  case Nil
  show ?case by simp
next
  case (Cons l ls)
  then obtain b where "l = b @ [LF]" "LF \<notin> set b"
    unfolding whole_line_iff by auto
  with Cons show ?case
    by (simp add: readlines_line)
qed

text \<open>Opening a file for writing leaves the other files as they are.\<close>

lemma open_w_other_files:
  assumes "open_w fs p = Inr fs'" and "q \<noteq> p"
  shows "files fs' q = files fs q"
  using assms
  by (auto simp: open_w_def write_text_def add_entry_def split: if_splits option.splits)

section \<open>Properties of \<^verbatim>\<open>append_vocabulary\<close> and \<^verbatim>\<open>append_concepts\<close>\<close>

lemma vocab_id_match_None:
  assumes "reserved_ids_ok E"
  shows "(vocab_id_match E row = None) = (\<not> has_reserved_id E row)"
  using assms by (auto simp: vocab_id_match_def find_None_iff reserved_ids_ok_def has_reserved_id_def)

lemma vocab_id_match_Some:
  assumes "reserved_ids_ok E" and "vocab_id_match E row = Some v"
  shows "v \<noteq> [] \<and> has_reserved_id E row"
proof -
  from assms(2) obtain i where "i < length (map fst (VOCABULARY_UPDATES E))"
      "sublist (map fst (VOCABULARY_UPDATES E) ! i) row" "v = map fst (VOCABULARY_UPDATES E) ! i"
    unfolding vocab_id_match_def find_Some_iff by blast
  then have "v \<in> set (map fst (VOCABULARY_UPDATES E))" and "sublist v row"
    using nth_mem by blast+
  with assms(1) show ?thesis
    by (auto simp: reserved_ids_ok_def has_reserved_id_def)
qed

lemma copy_rows_text:
  assumes "reserved_ids_ok E"
  shows "fst (copy_rows E in_path rows (out_fp, warned)) =
           out_fp @ concat (filter (\<lambda>row. \<not> has_reserved_id E row) rows)"
proof (induction rows arbitrary: out_fp warned)
  case Nil
  show ?case by (simp add: copy_rows_def)
next
  case (Cons row rows)
  show ?case
  proof (cases "vocab_id_match E row")
    case None
    with vocab_id_match_None [OF assms, of row] have "\<not> has_reserved_id E row" by simp
    with None Cons.IH [of "out_fp @ row" warned] show ?thesis
      by (simp add: copy_rows_def copy_row_def)
  next
    case (Some v)
    with vocab_id_match_Some [OF assms, of row v] have "v \<noteq> []" "has_reserved_id E row" by simp_all
    with Some Cons.IH [of out_fp "warned @ [(in_path, v)]"] show ?thesis
      by (simp add: copy_rows_def copy_row_def)
  qed
qed

text \<open>
  A run of \<^verbatim>\<open>append_vocabulary\<close> that can open its two files returns; it leaves the
  output file written and both templates with the fingerprint in their version field.
\<close>

lemma append_vocabulary_run:
  assumes ids: "reserved_ids_ok E"
      and tg: "template_row E w (AOU_GEN_ID E) = Some [g0, g1, g2, g3, g4]"
      and tc: "template_row E w (AOU_CUSTOM_ID E) = Some [c0, c1, c2, c3, c4]"
      and ow: "open_w (disk w) out_path = Inr fs1"
      and ir: "open_r fs1 in_path = Inr ()"
  shows "\<exists>w'. append_vocabulary E in_path out_path w = (Inr (), w') \<and>
           disk w' = write_text fs1 out_path
             (concat (filter (\<lambda>row. \<not> has_reserved_id E row) (readlines (read_text fs1 in_path))) @
              join (DELIMITER E) [g0, g1, g2, get_aou_vocab_version E w, g4] @ [LF] @
              join (DELIMITER E) [c0, c1, c2, get_aou_vocab_version E w, c4]) \<and>
           template_row E w' (AOU_GEN_ID E) = Some [g0, g1, g2, get_aou_vocab_version E w, g4] \<and>
           template_row E w' (AOU_CUSTOM_ID E) = Some [c0, c1, c2, get_aou_vocab_version E w, c4]"
proof -
  let ?v = "get_aou_vocab_version E w"
  from tg obtain rg where rg: "map_of (VOCABULARY_UPDATES E) (AOU_GEN_ID E) = Some rg"
      "heap w rg = [g0, g1, g2, g3, g4]"
    by (auto simp: template_row_def)
  from tc obtain rc where rc: "map_of (VOCABULARY_UPDATES E) (AOU_CUSTOM_ID E) = Some rc"
      "heap w rc = [c0, c1, c2, c3, c4]"
    by (auto simp: template_row_def)
  let ?w1 = "w\<lparr>heap := (heap w)(rg := [g0, g1, g2, ?v, g4])\<rparr>"
  from get_aou_vocabulary_row_run [OF rg(1) rg(2)]
  have run1: "get_aou_vocabulary_row E (AOU_GEN_ID E) w =
      (Inr (join (DELIMITER E) [g0, g1, g2, ?v, g4]), ?w1)"
    by (simp add: eval_nat_numeral)
  have v1: "get_aou_vocab_version E ?w1 = ?v"
    by (simp add: get_aou_vocab_version_def)
  obtain c3' where h1: "heap ?w1 rc = [c0, c1, c2, c3', c4]"
    using rg(2) rc(2) by (cases "rc = rg") auto
  let ?w2 = "?w1\<lparr>heap := (heap ?w1)(rc := [c0, c1, c2, ?v, c4])\<rparr>"
  from get_aou_vocabulary_row_run [OF rc(1) h1] v1
  have run2: "get_aou_vocabulary_row E (AOU_CUSTOM_ID E) ?w1 =
      (Inr (join (DELIMITER E) [c0, c1, c2, ?v, c4]), ?w2)"
    by (simp add: eval_nat_numeral)
  obtain out_fp warned where cp:
    "copy_rows E in_path (readlines (read_text fs1 in_path)) ([], warnings w) = (out_fp, warned)"
    by (cases "copy_rows E in_path (readlines (read_text fs1 in_path)) ([], warnings w)")
  from copy_rows_text [OF ids, of in_path "readlines (read_text fs1 in_path)" "[]" "warnings w"] cp
  have out: "out_fp = concat (filter (\<lambda>row. \<not> has_reserved_id E row) (readlines (read_text fs1 in_path)))"
    by simp
  have tg': "template_row E ?w2 (AOU_GEN_ID E) = Some [g0, g1, g2, ?v, g4]"
    using rg rc by (cases "rc = rg") (auto simp: template_row_def)
  have tc': "template_row E ?w2 (AOU_CUSTOM_ID E) = Some [c0, c1, c2, ?v, c4]"
    using rc by (simp add: template_row_def)
  let ?w3 = "?w2\<lparr>disk := write_text fs1 out_path
      (out_fp @ (join (DELIMITER E) [g0, g1, g2, ?v, g4] @ [LF]) @ join (DELIMITER E) [c0, c1, c2, ?v, c4]),
      warnings := warned\<rparr>"
  have "append_vocabulary E in_path out_path w = (Inr (), ?w3)"
    by (simp add: append_vocabulary_def run1 run2 ow ir cp)
  moreover have "template_row E ?w3 = template_row E ?w2"
    by (rule ext) (simp add: template_row_def)
  ultimately show ?thesis
    using tg' tc' by (intro exI [of _ ?w3]) (simp add: out)
qed





section \<open>Running \<^verbatim>\<open>append_vocabulary\<close> on its own output\<close>

lemma sublist_join_first: "sublist g0 (join d (g0 # rest) @ s)"
  by (cases rest) (auto simp: sublist_def intro: exI [of _ "[]"])

text \<open>
  Where every record of the first input ends in a line feed, the first field of each
  template is its vocabulary id, the rendered rows hold no line break, and the second run
  writes to another file than it reads, the second output is the first output.
\<close>

lemma append_vocabulary_fixed_point:
  assumes ids: "reserved_ids_ok E"
      and tg: "template_row E w (AOU_GEN_ID E) = Some [AOU_GEN_ID E, g1, g2, g3, g4]"
      and tc: "template_row E w (AOU_CUSTOM_ID E) = Some [AOU_CUSTOM_ID E, c1, c2, c3, c4]"
      and G: "G = join (DELIMITER E) [AOU_GEN_ID E, g1, g2, get_aou_vocab_version E w, g4]"
      and C: "C = join (DELIMITER E) [AOU_CUSTOM_ID E, c1, c2, get_aou_vocab_version E w, c4]"
      and clean: "LF \<notin> set G" "CR \<notin> set G" "LF \<notin> set C" "CR \<notin> set C"
      and ow: "open_w (disk w) out1 = Inr fs1"
      and ir: "open_r fs1 in_path = Inr ()"
      and terminated: "read_text fs1 in_path = [] \<or> last (read_text fs1 in_path) = LF"
      and run1: "append_vocabulary E in_path out1 w = (r1, w1)"
      and same: "get_aou_vocab_version E w1 = get_aou_vocab_version E w"
      and ow2: "open_w (disk w1) out2 = Inr fs2"
      and ne: "out2 \<noteq> out1"
      and run2: "append_vocabulary E out1 out2 w1 = (r2, w2)"
  shows "r1 = Inr () \<and> r2 = Inr () \<and> files (disk w2) out2 = files (disk w1) out1"
proof -
  let ?keep = "\<lambda>row. \<not> has_reserved_id E row"
  let ?kept = "filter ?keep (readlines (read_text fs1 in_path))"
  let ?text = "concat ?kept @ G @ [LF] @ C"
  from append_vocabulary_run [OF ids tg tc ow ir] run1 G C
  have r1: "r1 = Inr ()" and d1: "disk w1 = write_text fs1 out1 ?text"
    and tg1: "template_row E w1 (AOU_GEN_ID E) = Some [AOU_GEN_ID E, g1, g2, get_aou_vocab_version E w, g4]"
    and tc1: "template_row E w1 (AOU_CUSTOM_ID E) = Some [AOU_CUSTOM_ID E, c1, c2, get_aou_vocab_version E w, c4]"
    by auto
  from d1 have f1: "files (disk w1) out1 = Some ?text"
    by (simp add: write_text_def)
  with open_w_other_files [OF ow2, of out1] ne have f2: "files fs2 out1 = Some ?text"
    by simp
  then have ir2: "open_r fs2 out1 = Inr ()"
    by (simp add: open_r_def)
  \<comment> \<open>the text of the first output has no carriage return, so it is read back as it is\<close>
  have "set (concat ?kept) \<subseteq> set (concat (readlines (read_text fs1 in_path)))"
    by auto
  also have "\<dots> = set (read_text fs1 in_path)"
    by (simp add: concat_readlines)
  finally have "CR \<notin> set (concat ?kept)"
    using universal_newlines_no_CR by (auto simp: read_text_def split: option.splits)
  with clean LF_neq_CR have "CR \<notin> set ?text"
    by auto
  with f2 have rd: "read_text fs2 out1 = ?text"
    by (simp add: read_text_def universal_newlines_id)
  \<comment> \<open>its lines are the kept lines and the two rows\<close>
  from readlines_terminated [OF terminated] have wl: "\<forall>l \<in> set ?kept. whole_line l"
    by simp
  from ids have "AOU_CUSTOM_ID E \<noteq> []"
    by (simp add: reserved_ids_ok_def)
  with C have "C \<noteq> []" by auto
  with clean have lastline: "readlines C = [C]"
    by (simp add: readlines_last)
  from clean have "readlines (G @ LF # C) = (G @ [LF]) # readlines C"
    by (simp add: readlines_line)
  with readlines_concat_lines [OF wl, of "G @ [LF] @ C"] lastline
  have lines: "readlines ?text = ?kept @ [G @ [LF], C]"
    by simp
  \<comment> \<open>the second run keeps the kept lines and drops the two rows\<close>
  from G have "has_reserved_id E (G @ [LF])"
    unfolding has_reserved_id_def using sublist_join_first by blast
  moreover from C have "has_reserved_id E C"
    unfolding has_reserved_id_def using sublist_join_first [of "AOU_CUSTOM_ID E" "DELIMITER E" _ "[]"] by auto
  ultimately have kept2: "filter ?keep (readlines (read_text fs2 out1)) = ?kept"
    unfolding rd lines by simp
  from append_vocabulary_run [OF ids tg1 tc1 ow2 ir2] run2 same G C kept2
  have "r2 = Inr ()" and "disk w2 = write_text fs2 out2 ?text"
    by auto
  with r1 f1 show ?thesis
    by (simp add: write_text_def)
qed

lemma append_vocabulary_second_run_example:
  "files (disk (snd (append_vocabulary example_env ''out/v1.csv'' ''out/v2.csv''
       (snd (append_vocabulary example_env ''in/Vocabulary.CSV'' ''out/v1.csv'' example_world)))))
     ''out/v2.csv'' =
   files (disk (snd (append_vocabulary example_env ''in/Vocabulary.CSV'' ''out/v1.csv'' example_world)))
     ''out/v1.csv''"
  by code_simp

text \<open>
  Claim C4. The claim wants a second run on the output of the first, with the resource
  directory unchanged, to reproduce that output. Where the last record of the first
  input has no line feed after it, the first run writes the general row onto the same
  line; the second run finds a reserved id in that line and drops it, and the record is
  lost: the second output is not the first.
\<close>

theorem append_vocabulary_second_run_loses_record:
  "fst (append_vocabulary example_env ''in/Vocabulary.CSV'' ''out/v1.csv'' unterminated_world) = Inr () \<and>
   files (disk (snd (append_vocabulary example_env ''in/Vocabulary.CSV'' ''out/v1.csv'' unterminated_world)))
       ''out/v1.csv'' =
     Some (''id|name|ref|version|cid'' @ [LF] @
           ''SNOMED|S|s.org|v1|1'' @ ''AoU_General|General|g.org|vc.csv|2000'' @ [LF] @
           ''AoU_Custom|Custom|c.org|vc.csv|2100'') \<and>
   get_aou_vocab_version example_env
       (snd (append_vocabulary example_env ''in/Vocabulary.CSV'' ''out/v1.csv'' unterminated_world)) =
     get_aou_vocab_version example_env unterminated_world \<and>
   fst (append_vocabulary example_env ''out/v1.csv'' ''out/v2.csv''
         (snd (append_vocabulary example_env ''in/Vocabulary.CSV'' ''out/v1.csv'' unterminated_world))) = Inr () \<and>
   files (disk (snd (append_vocabulary example_env ''out/v1.csv'' ''out/v2.csv''
         (snd (append_vocabulary example_env ''in/Vocabulary.CSV'' ''out/v1.csv'' unterminated_world)))))
       ''out/v2.csv'' =
     Some (''id|name|ref|version|cid'' @ [LF] @
           ''AoU_General|General|g.org|vc.csv|2000'' @ [LF] @
           ''AoU_Custom|Custom|c.org|vc.csv|2100'')"
  by code_simp

section \<open>Properties of \<^verbatim>\<open>add_aou_vocabs\<close>\<close>

lemma find_step_concept:
  assumes "\<forall>f \<in> set names. fst (splitext (lower f)) \<noteq> CONCEPT E"
  shows "fst (fold (find_step E d) names (None, v)) = None"
  using assms
proof (induction names arbitrary: v)
  case Nil
  show ?case by simp
next
  case (Cons f names)
  then show ?case by (simp add: find_step_def Let_def)
qed

lemma find_step_vocabulary:
  assumes "\<forall>f \<in> set names. fst (splitext (lower f)) \<noteq> VOCABULARY E"
  shows "snd (fold (find_step E d) names (c, None)) = None"
  using assms
proof (induction names arbitrary: c)
  case Nil
  show ?case by simp
next
  case (Cons f names)
  then show ?case by (simp add: find_step_def Let_def)
qed

text \<open>
  Claim C7. When the entries of the input directory hold no name whose lower-cased base
  name, extension stripped, is \<open>CONCEPT\<close>, or none for \<open>VOCABULARY\<close>, the call raises the
  \<^verbatim>\<open>IOError\<close> that reports the missing resource and leaves the state, the file system in
  it, as it found it.
\<close>

theorem add_aou_vocabs_missing_resource:
  assumes "os_listdir (disk w) in_dir = Inr file_names"
      and "(\<forall>f \<in> set file_names. fst (splitext (lower f)) \<noteq> CONCEPT E) \<or>
           (\<forall>f \<in> set file_names. fst (splitext (lower f)) \<noteq> VOCABULARY E)"
  shows "\<exists>m. add_aou_vocabs E in_dir out_dir w = (Inl (IOError m), w)"
proof -
  obtain c v where cv: "fold (find_step E in_dir) file_names (None, None) = (c, v)"
    by (cases "fold (find_step E in_dir) file_names (None, None)")
  from assms(2) have "c = None \<or> v = None"
  proof
    assume "\<forall>f \<in> set file_names. fst (splitext (lower f)) \<noteq> CONCEPT E"
    from find_step_concept [OF this, of in_dir None] cv show ?thesis by simp
  next
    assume "\<forall>f \<in> set file_names. fst (splitext (lower f)) \<noteq> VOCABULARY E"
    from find_step_vocabulary [OF this, of in_dir None] cv show ?thesis by simp
  qed
  with assms(1) cv show ?thesis
    by (cases c; cases v) (auto simp: add_aou_vocabs_def)
qed

theorem add_aou_vocabs_missing_resource_witness:
  "os_listdir (disk (example_world\<lparr>disk := example_fs\<lparr>dirs := [''in'' \<mapsto> [''Concept.CSV'', ''notes.txt'']]\<rparr>\<rparr>)) ''in'' =
     Inr [''Concept.CSV'', ''notes.txt''] \<and>
   (\<exists>m. add_aou_vocabs example_env ''in'' ''out''
          (example_world\<lparr>disk := example_fs\<lparr>dirs := [''in'' \<mapsto> [''Concept.CSV'', ''notes.txt'']]\<rparr>\<rparr>) =
        (Inl (IOError m),
         example_world\<lparr>disk := example_fs\<lparr>dirs := [''in'' \<mapsto> [''Concept.CSV'', ''notes.txt'']]\<rparr>\<rparr>))"
proof -
  let ?w = "example_world\<lparr>disk := example_fs\<lparr>dirs := [''in'' \<mapsto> [''Concept.CSV'', ''notes.txt'']]\<rparr>\<rparr>"
  have l: "os_listdir (disk ?w) ''in'' = Inr [''Concept.CSV'', ''notes.txt'']"
    by (simp add: os_listdir_def)
  have "\<forall>f \<in> set [''Concept.CSV'', ''notes.txt'']. fst (splitext (lower f)) \<noteq> VOCABULARY example_env"
    by code_simp
  then have m: "(\<forall>f \<in> set [''Concept.CSV'', ''notes.txt'']. fst (splitext (lower f)) \<noteq> CONCEPT example_env) \<or>
      (\<forall>f \<in> set [''Concept.CSV'', ''notes.txt'']. fst (splitext (lower f)) \<noteq> VOCABULARY example_env)"
    by (rule disjI2)
  from add_aou_vocabs_missing_resource [OF l m] l show ?thesis by blast
qed

lemma add_aou_vocabs_missing_vocabulary_example:
  "fst (add_aou_vocabs example_env ''in'' ''out''
          (example_world\<lparr>disk := example_fs\<lparr>dirs := [''in'' \<mapsto> [''Concept.CSV'', ''notes.txt'']]\<rparr>\<rparr>)) =
     Inl (IOError ''VOCABULARY.csv was not found in in'')"
  by code_simp

section \<open>Properties of \<^verbatim>\<open>transform_file\<close>\<close>

text \<open>
  Claim C9. The claim wants every failure to create the \<open>errors\<close> subdirectory other
  than its pre-existence to be fatal to the file transform rather than suppressed. The
  handler catches every \<^verbatim>\<open>OSError\<close>: where the system refuses the creation for lack of
  permission, the function logs that the directory already exists, goes on to open the
  files, empties the output file left by an earlier run, and fails only when it opens the
  error file, with the error of that call.
\<close>

theorem transform_file_suppresses_creation_failure:
  "os_makedirs (disk locked_world) ''out/errors'' = Inl (OSError EACCES ''out/errors'') \<and>
   fst (transform_file example_env ''in/CONCEPT.csv'' ''out'' locked_world) =
     Inl (OSError ENOENT ''out/errors/CONCEPT.csv'') \<and>
   info_log (snd (transform_file example_env ''in/CONCEPT.csv'' ''out'' locked_world)) =
     [''Error directory:'' @ [CHR 0x09] @ ''out/errors'' @ [CHR 0x09] @ '' already exists''] \<and>
   files (disk locked_world) ''out/CONCEPT.csv'' = Some ''stale'' \<and>
   files (disk (snd (transform_file example_env ''in/CONCEPT.csv'' ''out'' locked_world)))
     ''out/CONCEPT.csv'' = Some []"
proof (intro conjI)
  show "os_makedirs (disk locked_world) ''out/errors'' = Inl (OSError EACCES ''out/errors'')"
    by (simp add: os_makedirs_def locked_world_def example_world_def example_fs_def)
qed code_simp+

lemma transform_file_existing_errors_dir:
  "fst (transform_file example_env ''in/CONCEPT.csv'' ''out''
          (snd (transform_file example_env ''in/CONCEPT.csv'' ''out'' example_world))) = Inr ()"
  by code_simp

end
